theory Spec2Isabelle
  imports Main
begin

section \<open>Texts, characters and exceptions\<close>

text \<open>
  A Python \<open>str\<close> is modelled as a \<open>string\<close>: the texts considered are those whose code
  points lie below 256.  On these the case folding and the white-space class of the regular
  expression engine are the ones written out below; larger code points behave like ordinary
  characters everywhere except in those two tables.
\<close>

abbreviation LF :: char where "LF \<equiv> CHR 0x0A"
abbreviation CR :: char where "CR \<equiv> CHR 0x0D"

text \<open>
  Exceptions are values.  \<open>Csv_Error\<close> is \<open>_csv.Error\<close>, \<open>RequestException\<close> stands for
  \<open>requests.RequestException\<close> and its subclasses (\<open>HTTPError\<close>, \<open>ConnectionError\<close>,
  \<open>Timeout\<close>), \<open>OSError\<close> is raised by \<open>open\<close>.  All of them are subclasses of
  \<open>Exception\<close>.
\<close>

datatype exn =
    Csv_Error string
  | RequestException string
  | OSError string
  | StopIteration

section \<open>The reader of the csv module\<close>

text \<open>
  \<open>csv.reader(lines, delimiter=",", quotechar="'")\<close> runs the state machine of
  \<open>Modules/_csv.c\<close>.  The dialect options that \<open>sql2csv.py\<close> leaves at their defaults are
  fixed here: \<open>doublequote=True\<close>, \<open>escapechar=None\<close>, \<open>skipinitialspace=False\<close>,
  \<open>strict=False\<close>, \<open>quoting=QUOTE_MINIMAL\<close>; the states that only an escape character
  reaches are left out.  The end of a line is the character \<open>None\<close>.
\<close>

record Dialect =
  delimiter :: char
  quotechar :: char
  lineterminator :: string

datatype ParserState =
    START_RECORD
  | START_FIELD
  | IN_FIELD
  | IN_QUOTED_FIELD
  | QUOTE_IN_QUOTED_FIELD
  | EAT_CRNL

record ReaderObj =
  r_fields :: "string list"
  r_field :: string
  r_state :: ParserState

definition field_limit :: nat where
  "field_limit = 131072"

definition parse_reset :: ReaderObj where
  "parse_reset = \<lparr>r_fields = [], r_field = [], r_state = START_RECORD\<rparr>"

definition parse_save_field :: "ReaderObj \<Rightarrow> ReaderObj" where
  "parse_save_field r = r\<lparr>r_fields := r_fields r @ [r_field r], r_field := []\<rparr>"

definition parse_add_char :: "ReaderObj \<Rightarrow> char \<Rightarrow> exn + ReaderObj" where
  "parse_add_char r c =
     (if field_limit \<le> length (r_field r)
      then Inl (Csv_Error ''field larger than field limit (131072)'')
      else Inr (r\<lparr>r_field := r_field r @ [c]\<rparr>))"

definition add_char_then :: "ParserState \<Rightarrow> ReaderObj \<Rightarrow> char \<Rightarrow> exn + ReaderObj" where
  "add_char_then s r c =
     (case parse_add_char r c of Inl e \<Rightarrow> Inl e | Inr r' \<Rightarrow> Inr (r'\<lparr>r_state := s\<rparr>))"

fun start_field :: "Dialect \<Rightarrow> ReaderObj \<Rightarrow> char option \<Rightarrow> exn + ReaderObj" where
  "start_field d r None = Inr ((parse_save_field r)\<lparr>r_state := START_RECORD\<rparr>)"
| "start_field d r (Some c) =
     (if c = LF \<or> c = CR then Inr ((parse_save_field r)\<lparr>r_state := EAT_CRNL\<rparr>)
      else if c = quotechar d then Inr (r\<lparr>r_state := IN_QUOTED_FIELD\<rparr>)
      else if c = delimiter d then Inr (parse_save_field r)
      else add_char_then IN_FIELD r c)"

fun in_field :: "Dialect \<Rightarrow> ReaderObj \<Rightarrow> char option \<Rightarrow> exn + ReaderObj" where
  "in_field d r None = Inr ((parse_save_field r)\<lparr>r_state := START_RECORD\<rparr>)"
| "in_field d r (Some c) =
     (if c = LF \<or> c = CR then Inr ((parse_save_field r)\<lparr>r_state := EAT_CRNL\<rparr>)
      else if c = delimiter d then Inr ((parse_save_field r)\<lparr>r_state := START_FIELD\<rparr>)
      else parse_add_char r c)"

fun in_quoted_field :: "Dialect \<Rightarrow> ReaderObj \<Rightarrow> char option \<Rightarrow> exn + ReaderObj" where
  "in_quoted_field d r None = Inr r"
| "in_quoted_field d r (Some c) =
     (if c = quotechar d then Inr (r\<lparr>r_state := QUOTE_IN_QUOTED_FIELD\<rparr>)
      else parse_add_char r c)"

fun quote_in_quoted_field :: "Dialect \<Rightarrow> ReaderObj \<Rightarrow> char option \<Rightarrow> exn + ReaderObj" where
  "quote_in_quoted_field d r None = Inr ((parse_save_field r)\<lparr>r_state := START_RECORD\<rparr>)"
| "quote_in_quoted_field d r (Some c) =
     (if c = quotechar d then add_char_then IN_QUOTED_FIELD r c
      else if c = delimiter d then Inr ((parse_save_field r)\<lparr>r_state := START_FIELD\<rparr>)
      else if c = LF \<or> c = CR then Inr ((parse_save_field r)\<lparr>r_state := EAT_CRNL\<rparr>)
      else add_char_then IN_FIELD r c)"

fun eat_crnl :: "ReaderObj \<Rightarrow> char option \<Rightarrow> exn + ReaderObj" where
  "eat_crnl r None = Inr (r\<lparr>r_state := START_RECORD\<rparr>)"
| "eat_crnl r (Some c) =
     (if c = LF \<or> c = CR then Inr r
      else Inl (Csv_Error ''new-line character seen in unquoted field''))"

fun start_record :: "Dialect \<Rightarrow> ReaderObj \<Rightarrow> char option \<Rightarrow> exn + ReaderObj" where
  "start_record d r None = Inr r"
| "start_record d r (Some c) =
     (if c = LF \<or> c = CR then Inr (r\<lparr>r_state := EAT_CRNL\<rparr>)
      else start_field d (r\<lparr>r_state := START_FIELD\<rparr>) (Some c))"

definition parse_process_char :: "Dialect \<Rightarrow> ReaderObj \<Rightarrow> char option \<Rightarrow> exn + ReaderObj" where
  "parse_process_char d r c =
     (case r_state r of
        START_RECORD \<Rightarrow> start_record d r c
      | START_FIELD \<Rightarrow> start_field d r c
      | IN_FIELD \<Rightarrow> in_field d r c
      | IN_QUOTED_FIELD \<Rightarrow> in_quoted_field d r c
      | QUOTE_IN_QUOTED_FIELD \<Rightarrow> quote_in_quoted_field d r c
      | EAT_CRNL \<Rightarrow> eat_crnl r c)"

text \<open>The inner loop of \<open>Reader_iternext\<close>: the characters of one line, in order.\<close>

fun process_line :: "Dialect \<Rightarrow> ReaderObj \<Rightarrow> string \<Rightarrow> exn + ReaderObj" where
  "process_line d r [] = Inr r"
| "process_line d r (c # cs) =
     (case parse_process_char d r (Some c) of
        Inl e \<Rightarrow> Inl e
      | Inr r' \<Rightarrow> process_line d r' cs)"

text \<open>
  The outer loop of \<open>Reader_iternext\<close>: lines are taken from the input until the machine is
  back in \<open>START_RECORD\<close>.  When the input is exhausted inside a record, the pending field is
  saved if it is not empty or a quote is open; otherwise the iterator stops.  The result is the
  record's fields and the lines not yet read.
\<close>

fun Reader_lines :: "Dialect \<Rightarrow> ReaderObj \<Rightarrow> string list \<Rightarrow> exn + string list \<times> string list" where
  "Reader_lines d r [] =
     (if r_field r \<noteq> [] \<or> r_state r = IN_QUOTED_FIELD
      then Inr (r_fields (parse_save_field r), [])
      else Inl StopIteration)"
| "Reader_lines d r (line # lines) =
     (case process_line d r line of
        Inl e \<Rightarrow> Inl e
      | Inr r1 \<Rightarrow>
          (case parse_process_char d r1 None of
             Inl e \<Rightarrow> Inl e
           | Inr r2 \<Rightarrow>
               if r_state r2 = START_RECORD then Inr (r_fields r2, lines)
               else Reader_lines d r2 lines))"

definition Reader_iternext :: "Dialect \<Rightarrow> string list \<Rightarrow> exn + string list \<times> string list" where
  "Reader_iternext d lines = Reader_lines d parse_reset lines"

section \<open>sql2csv.py: parse_record\<close>

definition sql_dialect :: Dialect where
  "sql_dialect = \<lparr>delimiter = CHR '','', quotechar = CHR 0x27, lineterminator = [CR, LF]\<rparr>"

text \<open>Python's \<open>xs[:n]\<close>: a negative bound counts from the end.\<close>

definition slice_to :: "'a list \<Rightarrow> int \<Rightarrow> 'a list" where
  "slice_to xs n = take (nat (if n < 0 then int (length xs) + n else n)) xs"

definition parse_record :: "string \<Rightarrow> int \<Rightarrow> exn + string list" where
  "parse_record record_str expected_cols =
     (case Reader_iternext sql_dialect [record_str] of
        Inl e \<Rightarrow> Inl e
      | Inr (fs, _) \<Rightarrow>
          if int (length fs) > expected_cols then Inr (slice_to fs expected_cols)
          else if int (length fs) < expected_cols
          then Inr (fs @ replicate (nat (expected_cols - int (length fs))) [])
          else Inr fs)"

section \<open>The regular expression engine\<close>

text \<open>
  \<open>re.compile(r"INSERT INTO `x_world` VALUES\s*\((.*?)\);", re.IGNORECASE)\<close> is matched by
  the backtracking engine of \<open>Modules/_sre\<close>.  The pattern is kept as data, a list of nodes,
  and the matcher below is the engine restricted to the node kinds this pattern uses: a single
  character test, a greedy repetition of one, and the capturing group around a lazy repetition
  of one.
\<close>

text \<open>Case folding and white space of \<open>str\<close> patterns, on code points below 256.\<close>

definition unicode_tolower :: "char \<Rightarrow> char" where
  "unicode_tolower c =
     (let n = (of_char c :: nat)
      in if (65 \<le> n \<and> n \<le> 90) \<or> (192 \<le> n \<and> n \<le> 222 \<and> n \<noteq> 215)
         then char_of (n + 32) else c)"

definition unicode_isspace :: "char \<Rightarrow> bool" where
  "unicode_isspace c =
     (let n = (of_char c :: nat)
      in (9 \<le> n \<and> n \<le> 13) \<or> (28 \<le> n \<and> n \<le> 32) \<or> n = 133 \<or> n = 160)"

datatype atom = LITERAL char | CATEGORY_SPACE | ANY

text \<open>\<open>ANY\<close> is the dot without \<open>DOTALL\<close>: every character except the line feed.\<close>

fun atom_match :: "bool \<Rightarrow> atom \<Rightarrow> char \<Rightarrow> bool" where
  "atom_match ic (LITERAL a) c = (if ic then unicode_tolower c = unicode_tolower a else c = a)"
| "atom_match ic CATEGORY_SPACE c = unicode_isspace c"
| "atom_match ic ANY c = (c \<noteq> LF)"

datatype node = ONE atom | MAX_REPEAT atom | SUBPATTERN_MIN_REPEAT atom

text \<open>
  \<open>sre_match ic adv n0 ps s g\<close> matches the nodes \<open>ps\<close> at the start of \<open>s\<close>; \<open>g\<close> is the text
  group 1 has captured so far.  The result is the capture and the text after the match.
  \<open>MAX_REPEAT\<close> takes as many characters as it can and gives them back one by one when the
  rest of the pattern fails; \<open>SUBPATTERN_MIN_REPEAT\<close> first tries the rest of the pattern and
  takes one more character when that fails.  At the end of the pattern a match is refused
  when \<open>must_advance\<close> is set (\<open>adv\<close>) and nothing was consumed (\<open>n0\<close> is the length of the
  text at the start of the match).
\<close>

fun sre_match :: "bool \<Rightarrow> bool \<Rightarrow> nat \<Rightarrow> node list \<Rightarrow> string \<Rightarrow> string \<Rightarrow> (string \<times> string) option" where
  "sre_match ic adv n0 [] s g = (if adv \<and> length s = n0 then None else Some (g, s))"
| "sre_match ic adv n0 (ONE a # ps) s g =
     (case s of
        [] \<Rightarrow> None
      | c # cs \<Rightarrow> if atom_match ic a c then sre_match ic adv n0 ps cs g else None)"
| "sre_match ic adv n0 (MAX_REPEAT a # ps) s g =
     (case s of
        [] \<Rightarrow> sre_match ic adv n0 ps s g
      | c # cs \<Rightarrow>
          if atom_match ic a c
          then (case sre_match ic adv n0 (MAX_REPEAT a # ps) cs g of
                  Some r \<Rightarrow> Some r
                | None \<Rightarrow> sre_match ic adv n0 ps s g)
          else sre_match ic adv n0 ps s g)"
| "sre_match ic adv n0 (SUBPATTERN_MIN_REPEAT a # ps) s g =
     (case sre_match ic adv n0 ps s g of
        Some r \<Rightarrow> Some r
      | None \<Rightarrow>
          (case s of
             [] \<Rightarrow> None
           | c # cs \<Rightarrow>
               if atom_match ic a c
               then sre_match ic adv n0 (SUBPATTERN_MIN_REPEAT a # ps) cs (g @ [c])
               else None))"

text \<open>
  \<open>sre_search\<close> tries every start position from the left; \<open>must_advance\<close> only binds the
  first one.  The result also tells whether the match found is empty.
\<close>

fun sre_search :: "bool \<Rightarrow> bool \<Rightarrow> node list \<Rightarrow> string \<Rightarrow> (string \<times> string \<times> bool) option" where
  "sre_search ic adv ps s =
     (case sre_match ic adv (length s) ps s [] of
        Some (g, rest) \<Rightarrow> Some (g, rest, length rest = length s)
      | None \<Rightarrow> (case s of [] \<Rightarrow> None | c # cs \<Rightarrow> sre_search ic False ps cs))"

declare sre_search.simps [simp del]

lemma sre_match_rest:
  "sre_match ic adv n0 ps s g = Some (g', rest) \<Longrightarrow>
     length rest \<le> length s \<and> (adv \<longrightarrow> length rest \<noteq> n0)"
proof (induction ic adv n0 ps s g rule: sre_match.induct)
  case (1 ic adv n0 s g)
  then show ?case by (auto split: if_splits)
next
  case (2 ic adv n0 a ps s g)
  then show ?case by (cases s) (auto split: if_splits)
next
  case (3 ic adv n0 a ps s g)
  show ?case
  proof (cases s)
    case Nil
    with 3 show ?thesis by auto
  next
    case (Cons c cs)
    show ?thesis
    proof (cases "atom_match ic a c")
      case False
      with 3 Cons show ?thesis by auto
    next
      case True
      show ?thesis
      proof (cases "sre_match ic adv n0 (MAX_REPEAT a # ps) cs g")
        case None
        with 3 Cons True show ?thesis by auto
      next
        case (Some r)
        with "3.prems" Cons True have "sre_match ic adv n0 (MAX_REPEAT a # ps) cs g = Some (g', rest)"
          by simp
        from "3.IH"(2) [OF Cons True this] Cons show ?thesis by auto
      qed
    qed
  qed
next
  case (4 ic adv n0 a ps s g)
  show ?case
  proof (cases "sre_match ic adv n0 ps s g")
    case (Some r)
    with "4.prems" have "sre_match ic adv n0 ps s g = Some (g', rest)" by simp
    from "4.IH"(1) [OF this] show ?thesis .
  next
    case None
    show ?thesis
    proof (cases s)
      case Nil
      with "4.prems" None show ?thesis by simp
    next
      case (Cons c cs)
      with "4.prems" None have m: "atom_match ic a c"
        and r: "sre_match ic adv n0 (SUBPATTERN_MIN_REPEAT a # ps) cs (g @ [c]) = Some (g', rest)"
        by (auto split: if_splits)
      from "4.IH"(2) [OF None Cons m r] Cons show ?thesis by auto
    qed
  qed
qed

lemma sre_search_progress:
  "sre_search ic adv ps s = Some (g, rest, e) \<Longrightarrow>
     length rest < length s \<or> (length rest = length s \<and> e \<and> \<not> adv)"
proof (induction s arbitrary: adv)
  case Nil
  then show ?case
    by (auto simp: sre_search.simps [of _ _ _ "[]"] split: option.splits dest: sre_match_rest)
next
  case (Cons c cs)
  show ?case
  proof (cases "sre_match ic adv (length (c # cs)) ps (c # cs) []")
    case None
    with Cons.prems have "sre_search ic False ps cs = Some (g, rest, e)"
      by (simp add: sre_search.simps [of _ _ _ "c # cs"])
    from Cons.IH [OF this] show ?thesis by auto
  next
    case (Some r)
    then obtain g1 r1 where r: "r = (g1, r1)" by (cases r)
    with Some Cons.prems have eq: "g1 = g" "r1 = rest" "e = (length rest = length (c # cs))"
      by (auto simp: sre_search.simps [of _ _ _ "c # cs"])
    from Some r eq sre_match_rest [of ic adv "length (c # cs)" ps "c # cs" "[]" g rest]
    show ?thesis by auto
  qed
qed

text \<open>
  \<open>pattern.findall\<close> for a pattern with one group: search, keep the group, search again from
  the end of the match, with \<open>must_advance\<close> set when the match was empty.
\<close>

function findall_from :: "bool \<Rightarrow> node list \<Rightarrow> bool \<Rightarrow> string \<Rightarrow> string list" where
  "findall_from ic ps adv s =
     (case sre_search ic adv ps s of
        None \<Rightarrow> []
      | Some (g, rest, e) \<Rightarrow> g # findall_from ic ps e rest)"
  by pat_completeness auto
termination
  apply (relation "measure (\<lambda>(ic, ps, adv, s). 2 * length s + (if adv then 0 else 1))")
   apply simp
  apply (auto dest!: sre_search_progress)
  done

declare findall_from.simps [simp del]

record Pattern =
  ignorecase :: bool
  code :: "node list"

definition findall :: "Pattern \<Rightarrow> string \<Rightarrow> string list" where
  "findall p s = findall_from (ignorecase p) (code p) False s"

section \<open>sql2csv.py: INSERT_PATTERN and extract_value_strings\<close>

definition INSERT_PATTERN :: Pattern where
  "INSERT_PATTERN =
     \<lparr>ignorecase = True,
      code = map (\<lambda>c. ONE (LITERAL c)) ''INSERT INTO `x_world` VALUES''
        @ [MAX_REPEAT CATEGORY_SPACE, ONE (LITERAL CHR ''(''), SUBPATTERN_MIN_REPEAT ANY,
           ONE (LITERAL CHR '')''), ONE (LITERAL CHR '';'')]\<rparr>"

definition extract_value_strings :: "string \<Rightarrow> string list" where
  "extract_value_strings sql_text = findall INSERT_PATTERN sql_text"

section \<open>Properties of parse_record\<close>

lemmas reader_defs =
  Reader_iternext_def parse_reset_def parse_process_char_def sql_dialect_def
  add_char_then_def parse_add_char_def field_limit_def parse_save_field_def

lemma parse_process_char_no_newline:
  assumes "c \<noteq> LF" "c \<noteq> CR" "r_state r \<noteq> EAT_CRNL" "length (r_field r) < field_limit"
  shows "\<exists>r'. parse_process_char d r (Some c) = Inr r' \<and> r_state r' \<noteq> EAT_CRNL
           \<and> length (r_field r') \<le> Suc (length (r_field r))"
  using assms
  by (cases "r_state r")
     (auto simp: parse_process_char_def add_char_then_def parse_add_char_def parse_save_field_def)

lemma process_line_no_newline:
  assumes "LF \<notin> set s" "CR \<notin> set s" "r_state r \<noteq> EAT_CRNL"
    "length (r_field r) + length s \<le> field_limit"
  shows "\<exists>r'. process_line d r s = Inr r' \<and> r_state r' \<noteq> EAT_CRNL"
  using assms
proof (induction s arbitrary: r)
  case Nil
  then show ?case by simp
next
  case (Cons c cs)
  from Cons.prems obtain r1 where r1: "parse_process_char d r (Some c) = Inr r1"
    "r_state r1 \<noteq> EAT_CRNL" "length (r_field r1) \<le> Suc (length (r_field r))"
    using parse_process_char_no_newline [of c r d] by auto
  with Cons.prems have "length (r_field r1) + length cs \<le> field_limit" by simp
  with Cons.IH [of r1] r1 Cons.prems show ?case by auto
qed

lemma end_of_line_ok:
  assumes "r_state r \<noteq> EAT_CRNL"
  shows "\<exists>r'. parse_process_char d r None = Inr r' \<and>
            (r_state r' = START_RECORD \<or> r_state r' = IN_QUOTED_FIELD)"
  using assms
  by (cases "r_state r") (auto simp: parse_process_char_def parse_save_field_def)

text \<open>
  A line without carriage return and line feed, no longer than the field limit, is always
  accepted by the reader.
\<close>

lemma Reader_iternext_no_newline:
  assumes "LF \<notin> set s" "CR \<notin> set s" "length s \<le> field_limit"
  shows "\<exists>fs. Reader_iternext d [s] = Inr (fs, [])"
proof -
  from assms obtain r1 where r1: "process_line d parse_reset s = Inr r1" "r_state r1 \<noteq> EAT_CRNL"
    using process_line_no_newline [of s parse_reset d] by (auto simp: parse_reset_def)
  then obtain r2 where r2: "parse_process_char d r1 None = Inr r2"
      "r_state r2 = START_RECORD \<or> r_state r2 = IN_QUOTED_FIELD"
    using end_of_line_ok [of r1 d] by auto
  then show ?thesis using r1 by (auto simp: Reader_iternext_def)
qed

lemma pad_length:
  "length (if length fs < 16 then fs @ replicate (16 - length fs) x
           else if 16 < length fs then take 16 fs else fs) = (16::nat)"
proof (cases "length fs < 16")
  case True
  then show ?thesis by simp
next
  case False
  then show ?thesis by (cases "16 < length fs") simp_all
qed

lemma nat_pad: "length (fs::'a list) < 16 \<Longrightarrow> nat (16 - int (length fs)) = 16 - length fs"
  by linarith

lemma parse_record_of_fields:
  assumes "Reader_iternext sql_dialect [record_str] = Inr (fs, rest)"
  shows "parse_record record_str 16 =
        Inr (if length fs < 16 then fs @ replicate (16 - length fs) []
             else if 16 < length fs then take 16 fs else fs)"
  using assms by (simp add: parse_record_def slice_to_def nat_pad)

text \<open>
  Claim C1, as stated, fails: \<open>parse_record\<close> does not return for every value string.  The
  value string \<open>1\r2\<close> (a carriage return outside quotes, followed by another character) makes
  the csv reader raise \<open>_csv.Error\<close>, and \<open>parse_record\<close> propagates it.
\<close>

theorem parse_record_raises_counterexample:
  "parse_record [CHR ''1'', CR, CHR ''2''] 16 =
     Inl (Csv_Error ''new-line character seen in unquoted field'')"
  by (simp add: parse_record_def reader_defs)

text \<open>
  Claim C1, amended: for every value string on which the csv reader returns a field list
  \<open>fs\<close>, \<open>parse_record\<close> with \<open>expected_cols = 16\<close> returns exactly 16 fields: \<open>fs\<close> followed
  by empty strings when \<open>fs\<close> has fewer than 16 fields, the first 16 fields of \<open>fs\<close> when it
  has more, and \<open>fs\<close> itself otherwise.  The reader returns a field list at least for every
  value string without carriage return and line feed of at most 131072 characters.
\<close>

theorem parse_record_sixteen:
  "(Reader_iternext sql_dialect [record_str] = Inr (fs, rest) \<longrightarrow>
      parse_record record_str 16 =
        Inr (if length fs < 16 then fs @ replicate (16 - length fs) []
             else if 16 < length fs then take 16 fs else fs)
      \<and> length (if length fs < 16 then fs @ replicate (16 - length fs) []
             else if 16 < length fs then take 16 fs else fs) = 16)
   \<and> (LF \<notin> set record_str \<and> CR \<notin> set record_str \<and> length record_str \<le> field_limit \<longrightarrow>
      (\<exists>out. parse_record record_str 16 = Inr out \<and> length out = 16))"
proof (intro conjI impI)
  assume "Reader_iternext sql_dialect [record_str] = Inr (fs, rest)"
  then show "parse_record record_str 16 =
        Inr (if length fs < 16 then fs @ replicate (16 - length fs) []
             else if 16 < length fs then take 16 fs else fs)"
    by (rule parse_record_of_fields)
next
  show "length (if length fs < 16 then fs @ replicate (16 - length fs) []
             else if 16 < length fs then take 16 fs else fs) = 16"
    by (rule pad_length)
next
  assume "LF \<notin> set record_str \<and> CR \<notin> set record_str \<and> length record_str \<le> field_limit"
  then obtain gs where "Reader_iternext sql_dialect [record_str] = Inr (gs, [])"
    using Reader_iternext_no_newline [of record_str sql_dialect] by blast
  from parse_record_of_fields [OF this] pad_length [of gs "[]"]
  show "\<exists>out. parse_record record_str 16 = Inr out \<and> length out = 16"
    by blast
qed

theorem parse_record_sixteen_witness:
  "Reader_iternext sql_dialect [''1,2,3''] = Inr ([''1'', ''2'', ''3''], [])
   \<and> LF \<notin> set ''1,2,3'' \<and> CR \<notin> set ''1,2,3'' \<and> length ''1,2,3'' \<le> field_limit
   \<and> parse_record ''1,2,3'' 16 =
       Inr [''1'', ''2'', ''3'', [], [], [], [], [], [], [], [], [], [], [], [], []]"
proof -
  have h: "Reader_iternext sql_dialect [''1,2,3''] = Inr ([''1'', ''2'', ''3''], [])"
    by (simp add: reader_defs)
  have k: "LF \<notin> set ''1,2,3'' \<and> CR \<notin> set ''1,2,3'' \<and> length ''1,2,3'' \<le> field_limit"
    by (simp add: field_limit_def)
  have "parse_record ''1,2,3'' 16 =
       Inr [''1'', ''2'', ''3'', [], [], [], [], [], [], [], [], [], [], [], [], []]"
    using parse_record_sixteen [of "''1,2,3''" "[''1'', ''2'', ''3'']" "[]"] h
    by (simp add: numeral_eq_Suc)
  with h k show ?thesis by blast
qed

end
